theory Spec2Isabelle
  imports Main "HOL-Library.Sublist" "HOL-Library.Multiset"
begin

section \<open>Schema metadata\<close>

text \<open>
  The diagram utility of \<^verbatim>\<open>src/models.py\<close> reads three things from the schema metadata:
  for every column its \<^verbatim>\<open>name\<close>, its \<^verbatim>\<open>primary_key\<close> flag and its \<^verbatim>\<open>foreign_keys\<close>;
  for every foreign key the name of the table of the referenced column
  (\<^verbatim>\<open>fk.column.table.name\<close>); and the items of \<^verbatim>\<open>metadata.tables\<close>, a dictionary from
  table name to table, read in its declared order. The metadata is taken as already
  resolved: every foreign key exposes the table it points to, with the schema and the
  name of that table. The \<^verbatim>\<open>foreign_keys\<close> of a column are a set in the library; they are
  listed here in the order in which the loop at line 138 meets them, an order that the
  schema does not fix.
\<close>

record foreign_key =
  column_table_schema :: "string option"
  column_table_name :: string
  column_name :: string

record column =
  col_name :: string
  primary_key :: bool
  foreign_keys :: "foreign_key list"

record table =
  columns :: "column list"

record metadata =
  tables :: "(string \<times> table) list"

text \<open>
  The library keys a table in \<^verbatim>\<open>metadata.tables\<close> by its name, prefixed with its schema
  and a dot when the table has a schema. The key of the table a foreign key points to:
\<close>

definition table_key :: "string option \<Rightarrow> string \<Rightarrow> string" where
  "table_key sch n = (case sch of None \<Rightarrow> n | Some s \<Rightarrow> s @ ''.'' @ n)"

definition fk_target_key :: "foreign_key \<Rightarrow> string" where
  "fk_target_key fk = table_key (column_table_schema fk) (column_table_name fk)"

section \<open>The graph object\<close>

text \<open>
  A \<^verbatim>\<open>Digraph\<close> keeps its name, its output format and a body: the statements added by
  \<^verbatim>\<open>attr\<close>, \<^verbatim>\<open>node\<close> and \<^verbatim>\<open>edge\<close>, in the order of the calls. Each method mutates the
  object; here it returns the updated one.
\<close>

datatype stmt =
  Attr string "(string \<times> string) list"
| Node string string
| Edge string string

record digraph =
  graph_name :: string
  format :: string
  body :: "stmt list"

definition Digraph :: "string \<Rightarrow> string \<Rightarrow> digraph" where
  "Digraph n f = \<lparr>graph_name = n, format = f, body = []\<rparr>"

definition attr :: "digraph \<Rightarrow> string \<Rightarrow> (string \<times> string) list \<Rightarrow> digraph" where
  "attr g kw kvs = g\<lparr>body := body g @ [Attr kw kvs]\<rparr>"

definition node :: "digraph \<Rightarrow> string \<Rightarrow> string \<Rightarrow> digraph" where
  "node g n label = g\<lparr>body := body g @ [Node n label]\<rparr>"

definition edge :: "digraph \<Rightarrow> string \<Rightarrow> string \<Rightarrow> digraph" where
  "edge g tail_name head_name = g\<lparr>body := body g @ [Edge tail_name head_name]\<rparr>"

text \<open>The nodes (name and label) and the edges (tail and head) of a graph, in body order.\<close>

fun nodes_of_body :: "stmt list \<Rightarrow> (string \<times> string) list" where
  "nodes_of_body [] = []"
| "nodes_of_body (Node n l # ss) = (n, l) # nodes_of_body ss"
| "nodes_of_body (_ # ss) = nodes_of_body ss"

fun edges_of_body :: "stmt list \<Rightarrow> (string \<times> string) list" where
  "edges_of_body [] = []"
| "edges_of_body (Edge a b # ss) = (a, b) # edges_of_body ss"
| "edges_of_body (_ # ss) = edges_of_body ss"

definition nodes_of :: "digraph \<Rightarrow> (string \<times> string) list" where
  "nodes_of g = nodes_of_body (body g)"

definition edges_of :: "digraph \<Rightarrow> (string \<times> string) list" where
  "edges_of g = edges_of_body (body g)"

section \<open>build_graph\<close>

text \<open>The primary-key marker and the left-justified line break \<^verbatim>\<open>r'\l'\<close> of a record label.\<close>

definition pk_marker :: string where
  "pk_marker = '' (PK)''"

definition line_break :: string where
  "line_break = [CHR 0x5C, CHR ''l'']"

text \<open>Lines 130 to 133: the text appended to \<^verbatim>\<open>fields\<close> for one column.\<close>

definition field_label :: "column \<Rightarrow> string" where
  "field_label col =
     (let colname = col_name col;
          colname = (if primary_key col then colname @ pk_marker else colname)
      in colname @ line_break)"

text \<open>Lines 128 to 134: the inner loop over the columns and the record label of a table.\<close>

definition node_label :: "string \<Rightarrow> table \<Rightarrow> string" where
  "node_label tname t =
     (let fields = fold (\<lambda>col fields. fields @ [field_label col]) (columns t) []
      in ''{'' @ tname @ ''|'' @ concat fields @ ''}'')"

definition build_graph ::
  "metadata \<Rightarrow> string \<Rightarrow> string \<Rightarrow> string \<Rightarrow> string \<Rightarrow> digraph" where
  "build_graph md n nodesep ranksep rankdir =
     (let g = Digraph n ''png'';
          g = attr g ''graph''
                [(''nodesep'', nodesep), (''ranksep'', ranksep), (''rankdir'', rankdir)];
          g = attr g ''node'' [(''shape'', ''record'')];
          tabs = tables md;
          g = fold (\<lambda>(tname, t) g. node g tname (node_label tname t)) tabs g;
          g = fold (\<lambda>(tname, t) g.
                fold (\<lambda>col g.
                  fold (\<lambda>fk g. edge g tname (column_table_name fk)) (foreign_keys col) g)
                  (columns t) g)
                tabs g
      in g)"

section \<open>The schema declared in the repository\<close>

text \<open>
  \<^verbatim>\<open>Column(..., ForeignKey('user.id'))\<close> names the referenced table and column in one
  dotted string; the two parts are given separately here. No table of the repository has
  a schema.
\<close>

definition ForeignKey :: "string \<Rightarrow> string \<Rightarrow> foreign_key" where
  "ForeignKey t c = \<lparr>column_table_schema = None, column_table_name = t, column_name = c\<rparr>"

definition Column :: "string \<Rightarrow> bool \<Rightarrow> foreign_key list \<Rightarrow> column" where
  "Column n pk fks = \<lparr>col_name = n, primary_key = pk, foreign_keys = fks\<rparr>"

definition User :: table where
  "User = \<lparr>columns =
     [Column ''id'' True [],
      Column ''username'' False [],
      Column ''email'' False [],
      Column ''password'' False [],
      Column ''full_name'' False [],
      Column ''bio'' False [],
      Column ''website'' False [],
      Column ''is_private'' False [],
      Column ''is_verified'' False [],
      Column ''created_at'' False []]\<rparr>"

definition Post :: table where
  "Post = \<lparr>columns =
     [Column ''id'' True [],
      Column ''user_id'' False [ForeignKey ''user'' ''id''],
      Column ''caption'' False [],
      Column ''location'' False [],
      Column ''created_at'' False [],
      Column ''is_archived'' False []]\<rparr>"

definition Media :: table where
  "Media = \<lparr>columns =
     [Column ''id'' True [],
      Column ''post_id'' False [ForeignKey ''post'' ''id''],
      Column ''media_type'' False [],
      Column ''url'' False [],
      Column ''order'' False []]\<rparr>"

definition Comment :: table where
  "Comment = \<lparr>columns =
     [Column ''id'' True [],
      Column ''post_id'' False [ForeignKey ''post'' ''id''],
      Column ''user_id'' False [ForeignKey ''user'' ''id''],
      Column ''content'' False [],
      Column ''created_at'' False [],
      Column ''parent_id'' False [ForeignKey ''comment'' ''id'']]\<rparr>"

definition Like :: table where
  "Like = \<lparr>columns =
     [Column ''id'' True [],
      Column ''user_id'' False [ForeignKey ''user'' ''id''],
      Column ''post_id'' False [ForeignKey ''post'' ''id''],
      Column ''created_at'' False []]\<rparr>"

definition Follow :: table where
  "Follow = \<lparr>columns =
     [Column ''id'' True [],
      Column ''follower_id'' False [ForeignKey ''user'' ''id''],
      Column ''followed_id'' False [ForeignKey ''user'' ''id''],
      Column ''created_at'' False [],
      Column ''is_accepted'' False []]\<rparr>"

text \<open>\<^verbatim>\<open>db.metadata\<close>: the tables in the order the classes are declared.\<close>

definition db_metadata :: metadata where
  "db_metadata = \<lparr>tables =
     [(''user'', User), (''post'', Post), (''media'', Media),
      (''comment'', Comment), (''like'', Like), (''follow'', Follow)]\<rparr>"

section \<open>The files and the calls that can fail\<close>

text \<open>
  The script works on the files of the current directory. A file holds a database, the
  DOT source of a graph, the image rendered from a graph, or anything else. The world also
  keeps the log of the calls made to the operating system, to the database engine and to
  the renderer, in order.
\<close>

datatype content =
  Sqlite_db "string list"
| Dot_source digraph
| Png_image digraph
| Other string

datatype call =
  Os_path_exists string
| Os_remove string
| Create_engine string
| Create_all
| Render string
| Os_replace string string

record world =
  files :: "string \<rightharpoonup> content"
  calls :: "call list"

text \<open>Every error below is a subclass of Python's \<^verbatim>\<open>Exception\<close>.\<close>

datatype error =
  FileNotFoundError
| OSError
| SQLAlchemyError
| CalledProcessError

type_synonym 'a io = "world \<Rightarrow> (error + 'a) \<times> world"

text \<open>
  Whether a call fails is decided outside the program (permissions, a full disk, a missing
  \<^verbatim>\<open>dot\<close> executable). One run of the script is described by the faults it meets, one
  entry per call site. A render can fail while saving the source, while running the engine
  (the source is then left behind), or while deleting the source after the image was
  written.
\<close>

datatype render_fault = Save_fails | Engine_fails | Cleanup_fails

record faults =
  pre_remove_fails :: bool
  create_engine_fails :: bool
  create_all_fails :: bool
  render_compact_fault :: "render_fault option"
  render_spaced_fault :: "render_fault option"
  render_symmetric_fault :: "render_fault option"
  replace_fails :: bool
  cleanup_remove_fails :: bool

definition log_call :: "call \<Rightarrow> world \<Rightarrow> world" where
  "log_call c w = w\<lparr>calls := calls w @ [c]\<rparr>"

text \<open>\<^verbatim>\<open>os.path.exists\<close> never raises.\<close>

definition os_path_exists :: "string \<Rightarrow> world \<Rightarrow> bool \<times> world" where
  "os_path_exists p w = (files w p \<noteq> None, log_call (Os_path_exists p) w)"

definition os_remove :: "bool \<Rightarrow> string \<Rightarrow> unit io" where
  "os_remove fails p w =
     (let w = log_call (Os_remove p) w
      in if files w p = None then (Inl FileNotFoundError, w)
         else if fails then (Inl OSError, w)
         else (Inr (), w\<lparr>files := (files w)(p := None)\<rparr>))"

text \<open>\<^verbatim>\<open>create_engine\<close> opens nothing; \<^verbatim>\<open>create_all\<close> connects and creates the tables.\<close>

definition create_engine :: "bool \<Rightarrow> string \<Rightarrow> unit io" where
  "create_engine fails url w =
     (let w = log_call (Create_engine url) w
      in if fails then (Inl SQLAlchemyError, w) else (Inr (), w))"

definition create_all :: "bool \<Rightarrow> metadata \<Rightarrow> string \<Rightarrow> unit io" where
  "create_all fails md p w =
     (let w = log_call Create_all w
      in if fails then (Inl SQLAlchemyError, w)
         else (Inr (), w\<lparr>files := (files w)(p \<mapsto> Sqlite_db (map fst (tables md)))\<rparr>))"

text \<open>
  \<^verbatim>\<open>g.render(filename, cleanup=True)\<close> saves the source as \<^verbatim>\<open>filename\<close>, renders it to
  \<^verbatim>\<open>filename.png\<close> and deletes the source. The path it returns is not used by the script.
\<close>

definition render :: "render_fault option \<Rightarrow> digraph \<Rightarrow> string \<Rightarrow> unit io" where
  "render fault g filename w =
     (let w = log_call (Render filename) w;
          rendered = filename @ ''.'' @ format g;
          saved = (files w)(filename \<mapsto> Dot_source g);
          drawn = saved(rendered \<mapsto> Png_image g)
      in case fault of
           Some Save_fails \<Rightarrow> (Inl OSError, w)
         | Some Engine_fails \<Rightarrow> (Inl CalledProcessError, w\<lparr>files := saved\<rparr>)
         | Some Cleanup_fails \<Rightarrow> (Inl OSError, w\<lparr>files := drawn\<rparr>)
         | None \<Rightarrow> (Inr (), w\<lparr>files := drawn(filename := None)\<rparr>))"

text \<open>\<^verbatim>\<open>os.replace\<close> renames: the source path is gone afterwards.\<close>

definition os_replace :: "bool \<Rightarrow> string \<Rightarrow> string \<Rightarrow> unit io" where
  "os_replace fails src dst w =
     (let w = log_call (Os_replace src dst) w
      in if files w src = None then (Inl FileNotFoundError, w)
         else if fails then (Inl OSError, w)
         else if src = dst then (Inr (), w)
         else (Inr (), w\<lparr>files := (files w)(dst := files w src, src := None)\<rparr>))"

section \<open>The script\<close>

text \<open>Statements in sequence: the first one that raises ends the block.\<close>

fun run_steps :: "unit io list \<Rightarrow> unit io" where
  "run_steps [] w = (Inr (), w)"
| "run_steps (s # ss) w =
     (case s w of (Inl e, w') \<Rightarrow> (Inl e, w') | (Inr _, w') \<Rightarrow> run_steps ss w')"

text \<open>
  \<^verbatim>\<open>try: body finally: fin\<close> runs \<^verbatim>\<open>fin\<close> after \<^verbatim>\<open>body\<close> however it ended; the result is
  that of \<^verbatim>\<open>body\<close> unless \<^verbatim>\<open>fin\<close> itself raises. \<^verbatim>\<open>try: m except Exception: pass\<close> turns
  every error of \<^verbatim>\<open>m\<close> into a normal end.
\<close>

definition try_finally :: "unit io \<Rightarrow> unit io \<Rightarrow> unit io" where
  "try_finally b fin w =
     (case b w of (r, w1) \<Rightarrow>
        (case fin w1 of (Inl e, w2) \<Rightarrow> (Inl e, w2) | (Inr _, w2) \<Rightarrow> (r, w2)))"

definition try_except_pass :: "unit io \<Rightarrow> unit io" where
  "try_except_pass m w = (case m w of (Inl e, w') \<Rightarrow> (Inr (), w') | (Inr _, w') \<Rightarrow> (Inr (), w'))"

definition tmp_db :: string where
  "tmp_db = ''tmp_instagram.db''"

text \<open>\<^verbatim>\<open>if os.path.exists(tmp_db): os.remove(tmp_db)\<close>, at lines 145 and 159.\<close>

definition remove_if_exists :: "bool \<Rightarrow> string \<Rightarrow> unit io" where
  "remove_if_exists fails p w =
     (case os_path_exists p w of (ex, w') \<Rightarrow> if ex then os_remove fails p w' else (Inr (), w'))"

text \<open>Lines 144 to 156, the body of the outer \<^verbatim>\<open>try\<close>.\<close>

definition try_body :: "metadata \<Rightarrow> faults \<Rightarrow> unit io" where
  "try_body md flt =
     run_steps
       [remove_if_exists (pre_remove_fails flt) tmp_db,
        create_engine (create_engine_fails flt) (''sqlite:///'' @ tmp_db),
        create_all (create_all_fails flt) md tmp_db,
        render (render_compact_fault flt)
          (build_graph md ''compact'' ''0.25'' ''0.5'' ''TB'') ''diagram_compact'',
        render (render_spaced_fault flt)
          (build_graph md ''spaced'' ''1.0'' ''1.2'' ''TB'') ''diagram_spaced'',
        render (render_symmetric_fault flt)
          (build_graph md ''symmetric'' ''1.2'' ''1.0'' ''LR'') ''diagram_symmetric'',
        os_replace (replace_fails flt) ''diagram_spaced.png'' ''diagram.png'']"

text \<open>Lines 158 to 162, the \<^verbatim>\<open>finally\<close> block.\<close>

definition finally_block :: "faults \<Rightarrow> unit io" where
  "finally_block flt = try_except_pass (remove_if_exists (cleanup_remove_fails flt) tmp_db)"

definition main :: "metadata \<Rightarrow> faults \<Rightarrow> unit io" where
  "main md flt = try_finally (try_body md flt) (finally_block flt)"

text \<open>A run starts with some files in the directory and an empty log.\<close>

definition start :: "(string \<rightharpoonup> content) \<Rightarrow> world" where
  "start fs = \<lparr>files = fs, calls = []\<rparr>"

definition no_faults :: faults where
  "no_faults =
     \<lparr>pre_remove_fails = False, create_engine_fails = False, create_all_fails = False,
      render_compact_fault = None, render_spaced_fault = None, render_symmetric_fault = None,
      replace_fails = False, cleanup_remove_fails = False\<rparr>"

section \<open>Notions used to state the properties\<close>

text \<open>
  The foreign-key references of the metadata as (source table, target table) pairs: tables
  in declared order, columns in declared order, the references of a column in their order.
  This is the edge list that section 4.1 of the specification asks of \<^verbatim>\<open>introspect\<close>.
\<close>

definition fk_references :: "metadata \<Rightarrow> (string \<times> string) list" where
  "fk_references md =
     concat (map (\<lambda>(tname, t).
       concat (map (\<lambda>col. map (\<lambda>fk. (tname, column_table_name fk)) (foreign_keys col))
         (columns t)))
       (tables md))"

text \<open>
  The foreign keys declared on the columns of table \<open>s\<close> whose referenced table has the
  name \<open>t\<close>.
\<close>

definition fk_refs :: "metadata \<Rightarrow> string \<Rightarrow> string \<Rightarrow> foreign_key list" where
  "fk_refs md s t =
     concat (map (\<lambda>(tname, tb).
       if tname = s
       then concat (map (\<lambda>col. filter (\<lambda>fk. column_table_name fk = t) (foreign_keys col))
              (columns tb))
       else [])
       (tables md))"


text \<open>No foreign key references a table that has a schema.\<close>

definition unqualified :: "metadata \<Rightarrow> bool" where
  "unqualified md =
     list_all (\<lambda>(tname, tb).
       list_all (\<lambda>col.
         list_all (\<lambda>fk. column_table_schema fk = None) (foreign_keys col))
         (columns tb))
       (tables md)"

text \<open>The foreign keys on the columns of the table with key \<open>t\<close> that point to that table.\<close>

definition self_refs :: "metadata \<Rightarrow> string \<Rightarrow> foreign_key list" where
  "self_refs md t =
     concat (map (\<lambda>(tname, tb).
       if tname = t
       then concat (map (\<lambda>col. filter (\<lambda>fk. fk_target_key fk = t) (foreign_keys col))
              (columns tb))
       else [])
       (tables md))"




section \<open>Schemas outside the repository\<close>

text \<open>A table with two columns that reference the table itself.\<close>

definition two_parents :: metadata where
  "two_parents = \<lparr>tables =
     [(''node'', \<lparr>columns =
        [Column ''id'' True [],
         Column ''parent_id'' False [ForeignKey ''node'' ''id''],
         Column ''root_id'' False [ForeignKey ''node'' ''id'']]\<rparr>)]\<rparr>"

text \<open>A table \<^verbatim>\<open>n\<close> under the schema \<^verbatim>\<open>s\<close> with a column that references the table itself.\<close>

definition qualified_tree :: metadata where
  "qualified_tree = \<lparr>tables =
     [(''s.n'', \<lparr>columns =
        [Column ''id'' True [],
         Column ''parent_id'' False
           [\<lparr>column_table_schema = Some ''s'', column_table_name = ''n'',
             column_name = ''id''\<rparr>]]\<rparr>)]\<rparr>"

text \<open>Two tables \<^verbatim>\<open>a\<close> and \<^verbatim>\<open>b\<close> under the schema \<^verbatim>\<open>s\<close>; \<^verbatim>\<open>b\<close> references \<^verbatim>\<open>a\<close>.\<close>

definition qualified_pair :: metadata where
  "qualified_pair = \<lparr>tables =
     [(''s.a'', \<lparr>columns = [Column ''id'' True []]\<rparr>),
      (''s.b'', \<lparr>columns =
        [Column ''id'' True [],
         Column ''a_id'' False
           [\<lparr>column_table_schema = Some ''s'', column_table_name = ''a'',
             column_name = ''id''\<rparr>]]\<rparr>)]\<rparr>"

text \<open>A column that carries two foreign keys, to \<^verbatim>\<open>a\<close> and to \<^verbatim>\<open>b\<close>.\<close>

definition two_targets :: metadata where
  "two_targets = \<lparr>tables =
     [(''a'', \<lparr>columns = [Column ''id'' True []]\<rparr>),
      (''b'', \<lparr>columns = [Column ''id'' True []]\<rparr>),
      (''t'', \<lparr>columns =
        [Column ''id'' True [],
         Column ''ref'' False [ForeignKey ''a'' ''id'', ForeignKey ''b'' ''id'']]\<rparr>)]\<rparr>"

text \<open>The reading of a schema in which every set of foreign keys is met in the opposite order.\<close>

definition reversed_fks :: "metadata \<Rightarrow> metadata" where
  "reversed_fks md = \<lparr>tables =
     map (\<lambda>(k, t).
       (k, \<lparr>columns = map (\<lambda>c. c\<lparr>foreign_keys := rev (foreign_keys c)\<rparr>) (columns t)\<rparr>))
       (tables md)\<rparr>"

text \<open>The number of positions of a text at which a marker occurs.\<close>

fun occurrences :: "string \<Rightarrow> string \<Rightarrow> nat" where
  "occurrences m [] = 0"
| "occurrences m (x # xs) = (if prefix m (x # xs) then 1 else 0) + occurrences m xs"

section \<open>Properties of build_graph\<close>

subsection \<open>The loops of build_graph in closed form\<close>

lemma fold_node:
  "fold (\<lambda>(tname, t) g. node g tname (node_label tname t)) tabs g =
   g\<lparr>body := body g @ map (\<lambda>(tname, t). Node tname (node_label tname t)) tabs\<rparr>"
  by (induction tabs arbitrary: g) (auto simp: node_def)

lemma fold_fk:
  "fold (\<lambda>fk g. edge g tname (column_table_name fk)) fks g =
   g\<lparr>body := body g @ map (\<lambda>fk. Edge tname (column_table_name fk)) fks\<rparr>"
  by (induction fks arbitrary: g) (auto simp: edge_def)

lemma fold_col:
  "fold (\<lambda>col g. fold (\<lambda>fk g. edge g tname (column_table_name fk)) (foreign_keys col) g) cols g =
   g\<lparr>body := body g @
     concat (map (\<lambda>col. map (\<lambda>fk. Edge tname (column_table_name fk)) (foreign_keys col)) cols)\<rparr>"
  by (induction cols arbitrary: g) (auto simp: fold_fk)

lemma fold_table:
  "fold (\<lambda>(tname, t) g.
      fold (\<lambda>col g. fold (\<lambda>fk g. edge g tname (column_table_name fk)) (foreign_keys col) g)
        (columns t) g) tabs g =
   g\<lparr>body := body g @
     concat (map (\<lambda>(tname, t).
       concat (map (\<lambda>col. map (\<lambda>fk. Edge tname (column_table_name fk)) (foreign_keys col))
         (columns t))) tabs)\<rparr>"
  by (induction tabs arbitrary: g) (auto simp: fold_col)

lemma edge_stmts:
  "concat (map (\<lambda>(tname, t).
       concat (map (\<lambda>col. map (\<lambda>fk. Edge tname (column_table_name fk)) (foreign_keys col))
         (columns t))) tabs) =
   map (\<lambda>(a, b). Edge a b) (fk_references \<lparr>tables = tabs\<rparr>)"
  by (induction tabs) (auto simp: fk_references_def map_concat comp_def)

lemma build_graph_closed:
  "build_graph md n nodesep ranksep rankdir =
   \<lparr>graph_name = n, format = ''png'',
    body = Attr ''graph'' [(''nodesep'', nodesep), (''ranksep'', ranksep), (''rankdir'', rankdir)]
         # Attr ''node'' [(''shape'', ''record'')]
         # map (\<lambda>(tname, t). Node tname (node_label tname t)) (tables md)
         @ map (\<lambda>(a, b). Edge a b) (fk_references md)\<rparr>"
proof -
  have "fk_references \<lparr>tables = tables md\<rparr> = fk_references md"
    by (simp add: fk_references_def)
  then show ?thesis
    by (simp add: build_graph_def Let_def fold_node fold_table edge_stmts Digraph_def attr_def)
qed

lemma body_build_graph:
  "body (build_graph md n nodesep ranksep rankdir) =
     Attr ''graph'' [(''nodesep'', nodesep), (''ranksep'', ranksep), (''rankdir'', rankdir)]
   # Attr ''node'' [(''shape'', ''record'')]
   # map (\<lambda>(tname, t). Node tname (node_label tname t)) (tables md)
   @ map (\<lambda>(a, b). Edge a b) (fk_references md)"
  by (simp add: build_graph_closed)

lemma format_build_graph: "format (build_graph md n nodesep ranksep rankdir) = ''png''"
  by (simp add: build_graph_closed)

lemma nodes_of_body_append: "nodes_of_body (xs @ ys) = nodes_of_body xs @ nodes_of_body ys"
  by (induction xs rule: nodes_of_body.induct) auto

lemma edges_of_body_append: "edges_of_body (xs @ ys) = edges_of_body xs @ edges_of_body ys"
  by (induction xs rule: edges_of_body.induct) auto

lemma nodes_of_body_Nodes: "nodes_of_body (map (\<lambda>(a, b). Node a (f a b)) xs) = map (\<lambda>(a, b). (a, f a b)) xs"
  by (induction xs) auto

lemma nodes_of_body_Edges: "nodes_of_body (map (\<lambda>(a, b). Edge a b) xs) = []"
  by (induction xs) auto

lemma edges_of_body_Nodes: "edges_of_body (map (\<lambda>(a, b). Node a (f a b)) xs) = []"
  by (induction xs) auto

lemma edges_of_body_Edges: "edges_of_body (map (\<lambda>(a, b). Edge a b) xs) = xs"
  by (induction xs) auto

lemma nodes_of_build_graph:
  "nodes_of (build_graph md n nodesep ranksep rankdir) =
   map (\<lambda>(tname, t). (tname, node_label tname t)) (tables md)"
  by (simp add: build_graph_closed nodes_of_def nodes_of_body_append nodes_of_body_Nodes
      nodes_of_body_Edges)

lemma edges_of_build_graph:
  "edges_of (build_graph md n nodesep ranksep rankdir) = fk_references md"
  by (simp add: build_graph_closed edges_of_def edges_of_body_append edges_of_body_Nodes
      edges_of_body_Edges)

lemma fields_fold: "fold (\<lambda>col fields. fields @ [field_label col]) cols acc = acc @ map field_label cols"
  by (induction cols arbitrary: acc) auto

lemma node_label_closed:
  "node_label tname t = ''{'' @ tname @ ''|'' @ concat (map field_label (columns t)) @ ''}''"
  by (simp add: node_label_def fields_fold)

lemmas schema_defs = db_metadata_def User_def Post_def Media_def Comment_def Like_def Follow_def
  Column_def ForeignKey_def

lemma fk_references_db:
  "fk_references db_metadata =
   [(''post'', ''user''), (''media'', ''post''), (''comment'', ''post''), (''comment'', ''user''),
    (''comment'', ''comment''), (''like'', ''user''), (''like'', ''post''),
    (''follow'', ''user''), (''follow'', ''user'')]"
  by (simp add: fk_references_def schema_defs)

lemma length_fk_references:
  "length (fk_references md) =
   (\<Sum>(tname, t)\<leftarrow>tables md. \<Sum>col\<leftarrow>columns t. length (foreign_keys col))"
  by (simp add: fk_references_def length_concat comp_def case_prod_unfold)

subsection \<open>Occurrences of the marker\<close>

lemma prefix_append_fresh:
  "set m \<inter> set zs = {} \<Longrightarrow> prefix m (n @ zs) = prefix m n"
proof (induction m arbitrary: n)
  case Nil
  then show ?case by simp
next
  case (Cons c m)
  show ?case
  proof (cases n)
    case Nil
    with Cons.prems show ?thesis by (cases zs) auto
  next
    case (Cons a n')
    with Cons.IH [of n'] Cons.prems show ?thesis by auto
  qed
qed

lemma marker_border:
  "n \<noteq> [] \<Longrightarrow> pk_marker = n @ us \<Longrightarrow> prefix us (pk_marker @ zs) \<Longrightarrow> us = []"
  by (auto simp: pk_marker_def Cons_eq_append_conv)

lemma prefix_marker_suffixed:
  assumes "n \<noteq> []"
  shows "prefix pk_marker (n @ pk_marker @ zs) = prefix pk_marker n"
proof
  assume "prefix pk_marker (n @ pk_marker @ zs)"
  then consider "prefix pk_marker n"
    | us where "pk_marker = n @ us" "prefix us (pk_marker @ zs)"
    by (auto simp: prefix_append)
  then show "prefix pk_marker n"
  proof cases
    case 1
    then show ?thesis .
  next
    case 2
    with assms have "us = []" by (blast dest: marker_border)
    with 2 show ?thesis by simp
  qed
next
  assume "prefix pk_marker n"
  then show "prefix pk_marker (n @ pk_marker @ zs)" by (rule prefix_prefix)
qed

lemma occurrences_plain:
  "occurrences pk_marker (n @ line_break) = occurrences pk_marker n"
proof (induction n)
  case Nil
  show ?case by (simp add: pk_marker_def line_break_def)
next
  case (Cons x n)
  have "set pk_marker \<inter> set line_break = {}"
    by (simp add: pk_marker_def line_break_def)
  then have "prefix pk_marker ((x # n) @ line_break) = prefix pk_marker (x # n)"
    by (rule prefix_append_fresh)
  with Cons show ?case by simp
qed

lemma occurrences_marked:
  "occurrences pk_marker (n @ pk_marker) = Suc (occurrences pk_marker n)"
proof (induction n)
  case Nil
  show ?case by (simp add: pk_marker_def)
next
  case (Cons x n)
  have "prefix pk_marker ((x # n) @ pk_marker @ []) = prefix pk_marker (x # n)"
    by (rule prefix_marker_suffixed) simp
  with Cons show ?case by simp
qed

lemma occurrences_field_label:
  "occurrences pk_marker (field_label col) =
   occurrences pk_marker (col_name col) + (if primary_key col then 1 else 0)"
  by (simp add: field_label_def Let_def occurrences_plain occurrences_marked)

subsection \<open>Counting edges and locating their ends\<close>

lemma count_fk:
  "count_list (map (\<lambda>fk. (tn, column_table_name fk)) fks) (s, t) =
   (if tn = s then length (filter (\<lambda>fk. column_table_name fk = t) fks) else 0)"
  by (induction fks) auto

lemma count_cols:
  "count_list (concat (map (\<lambda>col. map (\<lambda>fk. (tn, column_table_name fk)) (foreign_keys col)) cols)) (s, t) =
   (if tn = s
    then length (concat (map (\<lambda>col. filter (\<lambda>fk. column_table_name fk = t) (foreign_keys col)) cols))
    else 0)"
  by (induction cols) (auto simp: count_fk)

lemma count_fk_references:
  "count_list (fk_references md) (s, t) = length (fk_refs md s t)"
proof -
  have "count_list (concat (map (\<lambda>(tname, tb).
       concat (map (\<lambda>col. map (\<lambda>fk. (tname, column_table_name fk)) (foreign_keys col))
         (columns tb))) tabs)) (s, t) =
     length (concat (map (\<lambda>(tname, tb).
       if tname = s
       then concat (map (\<lambda>col. filter (\<lambda>fk. column_table_name fk = t) (foreign_keys col))
              (columns tb))
       else []) tabs))" for tabs
    by (induction tabs) (auto simp: count_cols)
  then show ?thesis by (simp add: fk_references_def fk_refs_def)
qed


lemma unqualified_key:
  assumes "unqualified md" and "(s, tb) \<in> set (tables md)" and "col \<in> set (columns tb)"
    and "fk \<in> set (foreign_keys col)"
  shows "fk_target_key fk = column_table_name fk"
proof -
  from assms have "column_table_schema fk = None"
    by (auto simp: unqualified_def list_all_iff)
  then show ?thesis by (simp add: fk_target_key_def table_key_def)
qed



lemma self_refs_unqualified:
  assumes "unqualified md"
  shows "self_refs md t = fk_refs md t t"
proof -
  have "filter (\<lambda>fk. fk_target_key fk = t) (foreign_keys col) =
        filter (\<lambda>fk. column_table_name fk = t) (foreign_keys col)"
    if "(s, tb) \<in> set (tables md)" and "col \<in> set (columns tb)" for s tb col
    using unqualified_key [OF assms that] by (intro filter_cong refl) simp
  then have "(if s = t
      then concat (map (\<lambda>col. filter (\<lambda>fk. fk_target_key fk = t) (foreign_keys col))
             (columns tb))
      else []) =
     (if s = t
      then concat (map (\<lambda>col. filter (\<lambda>fk. column_table_name fk = t) (foreign_keys col))
             (columns tb))
      else [])"
    if "(s, tb) \<in> set (tables md)" for s tb
    using that by (auto intro!: arg_cong [where f = concat] map_cong)
  then show ?thesis
    unfolding self_refs_def fk_refs_def
    by (intro arg_cong [where f = concat] map_cong refl) auto
qed

lemmas example_defs = two_parents_def qualified_tree_def qualified_pair_def two_targets_def
  reversed_fks_def Column_def ForeignKey_def


lemma unqualified_db: "unqualified db_metadata"
  by (simp add: unqualified_def schema_defs)

lemma self_refs_comment: "self_refs db_metadata ''comment'' = [ForeignKey ''comment'' ''id'']"
  by (simp add: self_refs_def fk_target_key_def table_key_def schema_defs)

subsection \<open>Two readings of one schema\<close>










section \<open>Properties of the script\<close>

subsection \<open>Sequences of statements\<close>

lemma run_steps_blocked:
  assumes "s \<in> set xs" and "\<And>w. isl (fst (s w))"
  shows "run_steps (xs @ ys) w = run_steps xs w \<and> isl (fst (run_steps xs w))"
  using assms(1)
proof (induction xs arbitrary: w)
  case Nil
  then show ?case by simp
next
  case (Cons x xs)
  show ?case
  proof (cases "x w")
    case (Pair r w')
    show ?thesis
    proof (cases r)
      case (Inl e)
      with Pair show ?thesis by simp
    next
      case (Inr u)
      with Pair assms(2) [of w] have "s \<noteq> x" by auto
      with Cons.prems have "s \<in> set xs" by simp
      from Cons.IH [OF this, of w'] Pair Inr show ?thesis by simp
    qed
  qed
qed

lemma run_steps_preserves:
  assumes "\<And>s w. s \<in> set ss \<Longrightarrow> P w \<Longrightarrow> P (snd (s w))" and "P w"
  shows "P (snd (run_steps ss w))"
  using assms
proof (induction ss arbitrary: w)
  case Nil
  then show ?case by simp
next
  case (Cons x xs)
  have x: "P (snd (x w))" using Cons.prems by simp
  show ?case
  proof (cases "x w")
    case (Pair r w')
    with x have w': "P w'" by simp
    show ?thesis
    proof (cases r)
      case (Inl e)
      with Pair w' show ?thesis by simp
    next
      case (Inr u)
      have "P (snd (run_steps xs w'))"
        using Cons.prems(1) w' by (intro Cons.IH) auto
      with Pair Inr show ?thesis by simp
    qed
  qed
qed

lemma fst_run_steps_Cons:
  "fst (run_steps (s # ss) w) =
   (if isl (fst (s w)) then fst (s w) else fst (run_steps ss (snd (s w))))"
  by (cases "s w") (auto split: sum.splits)

lemma snd_run_steps_Cons:
  "snd (run_steps (s # ss) w) =
   (if isl (fst (s w)) then snd (s w) else snd (run_steps ss (snd (s w))))"
  by (cases "s w") (auto split: sum.splits)

subsection \<open>What each call returns, writes and logs\<close>

lemma fst_remove_if_exists:
  "fst (remove_if_exists f p w) = (if files w p \<noteq> None \<and> f then Inl OSError else Inr ())"
  by (simp add: remove_if_exists_def os_path_exists_def os_remove_def log_call_def Let_def)

lemma files_remove_if_exists:
  "files (snd (remove_if_exists f p w)) = (if f then files w else (files w)(p := None))"
  by (auto simp: remove_if_exists_def os_path_exists_def os_remove_def log_call_def Let_def)

lemma calls_remove_if_exists:
  "calls (snd (remove_if_exists f p w)) =
   calls w @ (if files w p = None then [Os_path_exists p] else [Os_path_exists p, Os_remove p])"
  by (simp add: remove_if_exists_def os_path_exists_def os_remove_def log_call_def Let_def)

lemma fst_create_engine:
  "fst (create_engine f url w) = (if f then Inl SQLAlchemyError else Inr ())"
  by (simp add: create_engine_def Let_def)

lemma files_create_engine: "files (snd (create_engine f url w)) = files w"
  by (simp add: create_engine_def log_call_def Let_def)

lemma calls_create_engine: "calls (snd (create_engine f url w)) = calls w @ [Create_engine url]"
  by (simp add: create_engine_def log_call_def Let_def)

lemma fst_create_all:
  "fst (create_all f md p w) = (if f then Inl SQLAlchemyError else Inr ())"
  by (simp add: create_all_def Let_def)

lemma files_create_all:
  "files (snd (create_all f md p w)) =
   (if f then files w else (files w)(p \<mapsto> Sqlite_db (map fst (tables md))))"
  by (simp add: create_all_def log_call_def Let_def)

lemma calls_create_all: "calls (snd (create_all f md p w)) = calls w @ [Create_all]"
  by (simp add: create_all_def log_call_def Let_def)

lemma isl_render: "isl (fst (render fault g fn w)) \<longleftrightarrow> fault \<noteq> None"
  by (simp add: render_def Let_def split: option.splits render_fault.splits)

lemma fst_render_None: "fst (render None g fn w) = Inr ()"
  by (simp add: render_def Let_def)

lemma files_render_None:
  "files (snd (render None g fn w)) =
   (files w)(fn @ ''.'' @ format g \<mapsto> Png_image g, fn := None)"
  by (simp add: render_def log_call_def Let_def)

lemma files_render_other:
  "q \<noteq> fn \<Longrightarrow> q \<noteq> fn @ ''.'' @ format g \<Longrightarrow> files (snd (render fault g fn w)) q = files w q"
  by (simp add: render_def log_call_def Let_def split: option.splits render_fault.splits)

lemma calls_render: "calls (snd (render fault g fn w)) = calls w @ [Render fn]"
  by (simp add: render_def log_call_def Let_def split: option.splits render_fault.splits)

lemma fst_os_replace:
  "fst (os_replace f src dst w) =
   (if files w src = None then Inl FileNotFoundError else if f then Inl OSError else Inr ())"
  by (simp add: os_replace_def log_call_def Let_def)

lemma files_os_replace:
  "files (snd (os_replace f src dst w)) =
   (if files w src = None \<or> f \<or> src = dst then files w
    else (files w)(dst := files w src, src := None))"
  by (simp add: os_replace_def log_call_def Let_def)

lemma calls_os_replace:
  "calls (snd (os_replace f src dst w)) = calls w @ [Os_replace src dst]"
  by (simp add: os_replace_def log_call_def Let_def)

subsection \<open>The finally block\<close>

lemma fst_finally_block: "fst (finally_block flt w) = Inr ()"
  by (simp add: finally_block_def try_except_pass_def split: prod.splits sum.splits)

lemma snd_finally_block:
  "snd (finally_block flt w) = snd (remove_if_exists (cleanup_remove_fails flt) tmp_db w)"
  by (simp add: finally_block_def try_except_pass_def split: prod.splits sum.splits)

lemma fst_main: "fst (main md flt w) = fst (try_body md flt w)"
proof -
  obtain r w1 where b: "try_body md flt w = (r, w1)" by (cases "try_body md flt w")
  obtain r' w2 where f: "finally_block flt w1 = (r', w2)" by (cases "finally_block flt w1")
  from fst_finally_block [of flt w1] f have "r' = Inr ()" by simp
  with b f show ?thesis by (simp add: main_def try_finally_def)
qed

lemma snd_main: "snd (main md flt w) = snd (finally_block flt (snd (try_body md flt w)))"
proof -
  obtain r w1 where b: "try_body md flt w = (r, w1)" by (cases "try_body md flt w")
  obtain r' w2 where f: "finally_block flt w1 = (r', w2)" by (cases "finally_block flt w1")
  from fst_finally_block [of flt w1] f have "r' = Inr ()" by simp
  with b f show ?thesis by (simp add: main_def try_finally_def)
qed

lemma run_steps_ok_Cons:
  "fst (run_steps (s # ss) w) = Inr () \<longleftrightarrow>
   fst (s w) = Inr () \<and> fst (run_steps ss (snd (s w))) = Inr ()"
  by (cases "s w") (auto split: sum.splits)

lemma snd_run_steps_ok_Cons:
  "fst (s w) = Inr () \<Longrightarrow> snd (run_steps (s # ss) w) = snd (run_steps ss (snd (s w)))"
  by (cases "s w") (auto split: sum.splits)

lemma fst_render_ok: "fst (render fault g fn w) = Inr () \<longleftrightarrow> fault = None"
  by (simp add: render_def Let_def split: option.splits render_fault.splits)

lemma try_body_ok_files:
  assumes "fst (try_body md flt w) = Inr ()"
  shows "files (snd (try_body md flt w)) =
    (files w)
      (tmp_db \<mapsto> Sqlite_db (map fst (tables md)),
       ''diagram_compact.png'' \<mapsto> Png_image (build_graph md ''compact'' ''0.25'' ''0.5'' ''TB''),
       ''diagram_compact'' := None,
       ''diagram_symmetric.png'' \<mapsto> Png_image (build_graph md ''symmetric'' ''1.2'' ''1.0'' ''LR''),
       ''diagram_symmetric'' := None,
       ''diagram.png'' \<mapsto> Png_image (build_graph md ''spaced'' ''1.0'' ''1.2'' ''TB''),
       ''diagram_spaced'' := None,
       ''diagram_spaced.png'' := None)"
proof -
  let ?s1 = "remove_if_exists (pre_remove_fails flt) tmp_db"
  let ?s2 = "create_engine (create_engine_fails flt) (''sqlite:///'' @ tmp_db)"
  let ?s3 = "create_all (create_all_fails flt) md tmp_db"
  let ?g1 = "build_graph md ''compact'' ''0.25'' ''0.5'' ''TB''"
  let ?g2 = "build_graph md ''spaced'' ''1.0'' ''1.2'' ''TB''"
  let ?g3 = "build_graph md ''symmetric'' ''1.2'' ''1.0'' ''LR''"
  let ?s4 = "render (render_compact_fault flt) ?g1 ''diagram_compact''"
  let ?s5 = "render (render_spaced_fault flt) ?g2 ''diagram_spaced''"
  let ?s6 = "render (render_symmetric_fault flt) ?g3 ''diagram_symmetric''"
  let ?s7 = "os_replace (replace_fails flt) ''diagram_spaced.png'' ''diagram.png''"
  define w1 where "w1 = snd (?s1 w)"
  define w2 where "w2 = snd (?s2 w1)"
  define w3 where "w3 = snd (?s3 w2)"
  define w4 where "w4 = snd (?s4 w3)"
  define w5 where "w5 = snd (?s5 w4)"
  define w6 where "w6 = snd (?s6 w5)"
  define w7 where "w7 = snd (?s7 w6)"
  from assms have ok:
    "fst (?s1 w) = Inr ()" "fst (?s2 w1) = Inr ()" "fst (?s3 w2) = Inr ()"
    "fst (?s4 w3) = Inr ()" "fst (?s5 w4) = Inr ()" "fst (?s6 w5) = Inr ()"
    "fst (?s7 w6) = Inr ()"
    unfolding try_body_def run_steps_ok_Cons w1_def w2_def w3_def w4_def w5_def w6_def
    by blast+
  have "snd (try_body md flt w) = snd (run_steps [?s2, ?s3, ?s4, ?s5, ?s6, ?s7] w1)"
    unfolding try_body_def w1_def by (rule snd_run_steps_ok_Cons) (rule ok(1))
  also have "\<dots> = snd (run_steps [?s3, ?s4, ?s5, ?s6, ?s7] w2)"
    unfolding w2_def by (rule snd_run_steps_ok_Cons) (rule ok(2))
  also have "\<dots> = snd (run_steps [?s4, ?s5, ?s6, ?s7] w3)"
    unfolding w3_def by (rule snd_run_steps_ok_Cons) (rule ok(3))
  also have "\<dots> = snd (run_steps [?s5, ?s6, ?s7] w4)"
    unfolding w4_def by (rule snd_run_steps_ok_Cons) (rule ok(4))
  also have "\<dots> = snd (run_steps [?s6, ?s7] w5)"
    unfolding w5_def by (rule snd_run_steps_ok_Cons) (rule ok(5))
  also have "\<dots> = snd (run_steps [?s7] w6)"
    unfolding w6_def by (rule snd_run_steps_ok_Cons) (rule ok(6))
  also have "\<dots> = snd (run_steps [] w7)"
    unfolding w7_def by (rule snd_run_steps_ok_Cons) (rule ok(7))
  finally have final: "snd (try_body md flt w) = w7"
    by simp
  from ok have f: "render_compact_fault flt = None" "render_spaced_fault flt = None"
    "render_symmetric_fault flt = None" "\<not> create_all_fails flt"
    by (simp_all add: fst_render_ok fst_create_all split: if_splits)
  have f1: "files w1 = (files w)(tmp_db := None)"
  proof (cases "pre_remove_fails flt")
    case True
    with ok(1) have "files w tmp_db = None" by (simp add: fst_remove_if_exists split: if_splits)
    then have "(files w)(tmp_db := None) = files w" by (auto simp: fun_eq_iff)
    with True show ?thesis by (simp add: w1_def files_remove_if_exists)
  next
    case False
    then show ?thesis by (simp add: w1_def files_remove_if_exists)
  qed
  have f2: "files w2 = files w1" by (simp add: w2_def files_create_engine)
  have f3: "files w3 = (files w2)(tmp_db \<mapsto> Sqlite_db (map fst (tables md)))"
    using f by (simp add: w3_def files_create_all)
  have f4: "files w4 = (files w3)(''diagram_compact.png'' \<mapsto> Png_image ?g1, ''diagram_compact'' := None)"
    using f by (simp add: w4_def files_render_None format_build_graph)
  have f5: "files w5 = (files w4)(''diagram_spaced.png'' \<mapsto> Png_image ?g2, ''diagram_spaced'' := None)"
    using f by (simp add: w5_def files_render_None format_build_graph)
  have f6: "files w6 = (files w5)(''diagram_symmetric.png'' \<mapsto> Png_image ?g3, ''diagram_symmetric'' := None)"
    using f by (simp add: w6_def files_render_None format_build_graph)
  have src: "files w6 ''diagram_spaced.png'' = Some (Png_image ?g2)"
    by (simp add: f6 f5)
  from ok(7) have "\<not> replace_fails flt"
    by (simp add: fst_os_replace src split: if_splits)
  then have f7: "files w7 = (files w6)(''diagram.png'' := files w6 ''diagram_spaced.png'', ''diagram_spaced.png'' := None)"
    by (simp add: w7_def files_os_replace src)
  show ?thesis
    unfolding final f7 src f6 f5 f4 f3 f2 f1
    by (rule ext) (simp add: tmp_db_def)
qed

lemma fst_render:
  "fst (render fault g fn w) =
   (case fault of None \<Rightarrow> Inr () | Some Save_fails \<Rightarrow> Inl OSError
    | Some Engine_fails \<Rightarrow> Inl CalledProcessError | Some Cleanup_fails \<Rightarrow> Inl OSError)"
  by (simp add: render_def Let_def split: option.splits render_fault.splits)

lemma files_main:
  "files (snd (main md flt w)) =
   (if cleanup_remove_fails flt then files (snd (try_body md flt w))
    else (files (snd (try_body md flt w)))(tmp_db := None))"
  by (simp add: snd_main snd_finally_block files_remove_if_exists)

lemma calls_main:
  "calls (snd (main md flt w)) =
   calls (snd (try_body md flt w)) @
   (if files (snd (try_body md flt w)) tmp_db = None then [Os_path_exists tmp_db]
    else [Os_path_exists tmp_db, Os_remove tmp_db])"
  by (simp add: snd_main snd_finally_block calls_remove_if_exists)

lemma main_no_faults_ok: "fst (main md no_faults w) = Inr ()"
  unfolding fst_main try_body_def run_steps_ok_Cons
  by (simp add: no_faults_def fst_remove_if_exists fst_create_engine fst_create_all
      fst_render_None fst_os_replace files_render_None format_build_graph)


section \<open>Theorems about build_graph\<close>

text \<open>
  Claim C1. For every schema metadata and any two layout configurations (node separation,
  rank separation, rank direction), the graphs built by \<^verbatim>\<open>build_graph\<close> have the same
  nodes with the same labels and the same sequence of edges, hence the same node and edge
  counts. The first statement of the body is the graph attribute statement that carries
  the three layout parameters; everything after it, and the output format, is the same in
  both graphs. (The name of a graph is the name of its configuration.)
\<close>

theorem layout_independence:
  "nodes_of (build_graph md n1 nodesep1 ranksep1 rankdir1) =
     nodes_of (build_graph md n2 nodesep2 ranksep2 rankdir2)
   \<and> edges_of (build_graph md n1 nodesep1 ranksep1 rankdir1) =
     edges_of (build_graph md n2 nodesep2 ranksep2 rankdir2)
   \<and> length (nodes_of (build_graph md n1 nodesep1 ranksep1 rankdir1)) =
     length (nodes_of (build_graph md n2 nodesep2 ranksep2 rankdir2))
   \<and> length (edges_of (build_graph md n1 nodesep1 ranksep1 rankdir1)) =
     length (edges_of (build_graph md n2 nodesep2 ranksep2 rankdir2))
   \<and> hd (body (build_graph md n1 nodesep1 ranksep1 rankdir1)) =
     Attr ''graph'' [(''nodesep'', nodesep1), (''ranksep'', ranksep1), (''rankdir'', rankdir1)]
   \<and> tl (body (build_graph md n1 nodesep1 ranksep1 rankdir1)) =
     tl (body (build_graph md n2 nodesep2 ranksep2 rankdir2))
   \<and> format (build_graph md n1 nodesep1 ranksep1 rankdir1) =
     format (build_graph md n2 nodesep2 ranksep2 rankdir2)"
  by (simp add: nodes_of_build_graph edges_of_build_graph body_build_graph format_build_graph)

text \<open>
  Claim C4. For every schema metadata the graph has exactly one node per declared table,
  in declared order, and exactly one edge per foreign-key reference on any column, in
  declared order and with repetitions kept: the number of edges is the number of
  foreign-key references, and the number of edges from a table \<open>s\<close> to a table \<open>t\<close> is
  the number of foreign keys on columns of \<open>s\<close> that reference \<open>t\<close>, so parallel edges
  are not merged. In the repository's schema the two references from
  \<^verbatim>\<open>follow\<close> to \<^verbatim>\<open>user\<close> (\<^verbatim>\<open>follower_id\<close> and \<^verbatim>\<open>followed_id\<close>) give two parallel edges.
\<close>

theorem one_node_per_table_one_edge_per_fk:
  "map fst (nodes_of (build_graph md n nodesep ranksep rankdir)) = map fst (tables md)
   \<and> length (nodes_of (build_graph md n nodesep ranksep rankdir)) = length (tables md)
   \<and> edges_of (build_graph md n nodesep ranksep rankdir) = fk_references md
   \<and> length (edges_of (build_graph md n nodesep ranksep rankdir)) =
       (\<Sum>(tname, t)\<leftarrow>tables md. \<Sum>col\<leftarrow>columns t. length (foreign_keys col))
   \<and> count_list (edges_of (build_graph md n nodesep ranksep rankdir)) (s, t) =
       length (fk_refs md s t)
   \<and> count_list (edges_of (build_graph db_metadata n nodesep ranksep rankdir))
       (''follow'', ''user'') = 2"
  by (simp add: nodes_of_build_graph edges_of_build_graph length_fk_references fk_references_db
      count_fk_references comp_def case_prod_unfold)

text \<open>
  Claim C10. For the schema declared in the repository, \<^verbatim>\<open>build_graph\<close> gives 6 nodes
  (user, post, media, comment, like, follow) and 9 edges: post to user, media to post,
  comment to post, comment to user, comment to comment (a self-loop), like to user, like
  to post, and two parallel edges follow to user.
\<close>

theorem repository_graph:
  "map fst (nodes_of (build_graph db_metadata n nodesep ranksep rankdir)) =
     [''user'', ''post'', ''media'', ''comment'', ''like'', ''follow'']
   \<and> length (nodes_of (build_graph db_metadata n nodesep ranksep rankdir)) = 6
   \<and> edges_of (build_graph db_metadata n nodesep ranksep rankdir) =
     [(''post'', ''user''), (''media'', ''post''), (''comment'', ''post''), (''comment'', ''user''),
      (''comment'', ''comment''), (''like'', ''user''), (''like'', ''post''),
      (''follow'', ''user''), (''follow'', ''user'')]
   \<and> length (edges_of (build_graph db_metadata n nodesep ranksep rankdir)) = 9"
  by (simp add: nodes_of_build_graph edges_of_build_graph fk_references_db comp_def case_prod_unfold)
    (simp add: db_metadata_def)

text \<open>
  Claim C5, as stated: for every column, a primary-key column's field label carries the
  marker \<^verbatim>\<open> (PK)\<close> exactly once and the label of any other column never carries it.
  This fails for a column whose own name contains the marker text: the label of the
  non-key column \<^verbatim>\<open>note (PK)\<close> carries the marker once, and the label of a key column
  of that name carries it twice.
\<close>

theorem pk_marker_counterexample:
  "\<not> primary_key (Column ''note (PK)'' False []) \<and>
   occurrences pk_marker (field_label (Column ''note (PK)'' False [])) = 1 \<and>
   primary_key (Column ''note (PK)'' True []) \<and>
   occurrences pk_marker (field_label (Column ''note (PK)'' True [])) = 2"
  by (simp add: Column_def field_label_def pk_marker_def line_break_def)

text \<open>
  Claim C5, amended: for every column whose name does not itself contain the marker text,
  the field label carries the marker exactly once if the column is flagged primary-key,
  appended as a suffix to the column name, and not at all otherwise. The label of a node
  is made of the table name and these field labels, in column order.
\<close>

theorem pk_marker_once:
  assumes "occurrences pk_marker (col_name col) = 0"
  shows "occurrences pk_marker (field_label col) = (if primary_key col then 1 else 0)
    \<and> field_label col =
        col_name col @ (if primary_key col then pk_marker else []) @ line_break
    \<and> node_label tname t =
        ''{'' @ tname @ ''|'' @ concat (map field_label (columns t)) @ ''}''"
  using assms
  by (simp add: occurrences_field_label node_label_closed) (simp add: field_label_def)

theorem pk_marker_once_witness:
  "occurrences pk_marker (col_name (Column ''id'' True [])) = 0
   \<and> occurrences pk_marker (field_label (Column ''id'' True [])) = 1
   \<and> field_label (Column ''id'' True []) = ''id'' @ pk_marker @ line_break
   \<and> node_label ''media'' Media =
       ''{media|'' @ concat (map field_label (columns Media)) @ ''}''"
proof -
  have h: "occurrences pk_marker (col_name (Column ''id'' True [])) = 0"
    by (simp add: Column_def pk_marker_def)
  have p: "primary_key (Column ''id'' True [])"
    and c: "col_name (Column ''id'' True []) = ''id''"
    by (simp_all add: Column_def)
  note t = pk_marker_once [OF h, of "''media''" Media]
  show ?thesis
  proof (intro conjI)
    show "occurrences pk_marker (col_name (Column ''id'' True [])) = 0"
      by (rule h)
    from t [THEN conjunct1]
    show "occurrences pk_marker (field_label (Column ''id'' True [])) = 1"
      by (simp add: p)
    from t [THEN conjunct2, THEN conjunct1]
    show "field_label (Column ''id'' True []) = ''id'' @ pk_marker @ line_break"
      by (simp add: p c)
    from t [THEN conjunct2, THEN conjunct2]
    show "node_label ''media'' Media =
       ''{media|'' @ concat (map field_label (columns Media)) @ ''}''"
      by simp
  qed
qed

text \<open>
  Claim C6, as stated: a table containing a column whose foreign key targets that same
  table produces exactly one self-loop edge, from the table's name to the table's name.
  This fails in two ways. A table with two such columns produces two self-loops. And a
  table that has a schema is keyed by \<^verbatim>\<open>s.n\<close> while the head of its edge is the bare name
  \<^verbatim>\<open>n\<close> of line 139, so the edge of its self-reference is no self-loop.
\<close>

theorem self_loop_counterexample:
  "self_refs two_parents ''node'' \<noteq> []
   \<and> count_list (edges_of (build_graph two_parents ''compact'' ''0.25'' ''0.5'' ''TB''))
       (''node'', ''node'') = 2
   \<and> self_refs qualified_tree ''s.n'' \<noteq> []
   \<and> edges_of (build_graph qualified_tree ''compact'' ''0.25'' ''0.5'' ''TB'') =
       [(''s.n'', ''n'')]"
  by (simp add: edges_of_build_graph fk_references_def self_refs_def fk_target_key_def
      table_key_def example_defs)

text \<open>
  Claim C6, amended. In metadata where no foreign key references a table that has a
  schema, a table containing columns whose foreign keys target that same table (such as
  \<^verbatim>\<open>comment.parent_id\<close>, which references \<^verbatim>\<open>comment.id\<close>) produces exactly one self-loop
  edge per such foreign key, exactly one when there is one such column, from the table's
  name to the table's name. Graph construction does not fail on this input: the loops of
  \<^verbatim>\<open>build_graph\<close> run once over the tables, columns and foreign keys and never follow a
  reference, and the graph returned has the node of every table and the edge of every
  foreign key.
\<close>

theorem self_reference_self_loops:
  assumes "self_refs md t \<noteq> []" and "unqualified md"
  shows "count_list (edges_of (build_graph md n nodesep ranksep rankdir)) (t, t) =
      length (self_refs md t)
    \<and> (t, t) \<in> set (edges_of (build_graph md n nodesep ranksep rankdir))
    \<and> map fst (nodes_of (build_graph md n nodesep ranksep rankdir)) = map fst (tables md)
    \<and> edges_of (build_graph md n nodesep ranksep rankdir) = fk_references md"
proof -
  have c: "count_list (edges_of (build_graph md n nodesep ranksep rankdir)) (t, t) =
      length (self_refs md t)"
    using assms(2)
    by (simp add: edges_of_build_graph count_fk_references self_refs_unqualified)
  with assms(1)
  have "count_list (edges_of (build_graph md n nodesep ranksep rankdir)) (t, t) \<noteq> 0"
    by simp
  then have "(t, t) \<in> set (edges_of (build_graph md n nodesep ranksep rankdir))"
    by (simp add: count_list_0_iff)
  moreover
  have "map fst (nodes_of (build_graph md n nodesep ranksep rankdir)) = map fst (tables md)"
    by (simp add: nodes_of_build_graph comp_def case_prod_unfold)
  ultimately show ?thesis
    using c by (simp add: edges_of_build_graph)
qed

theorem self_reference_self_loops_witness:
  "self_refs db_metadata ''comment'' \<noteq> []
   \<and> unqualified db_metadata
   \<and> count_list (edges_of (build_graph db_metadata ''compact'' ''0.25'' ''0.5'' ''TB''))
       (''comment'', ''comment'') = 1
   \<and> (''comment'', ''comment'')
       \<in> set (edges_of (build_graph db_metadata ''compact'' ''0.25'' ''0.5'' ''TB''))"
proof -
  have h: "self_refs db_metadata ''comment'' \<noteq> []"
    by (simp add: self_refs_comment)
  note t = self_reference_self_loops [OF h unqualified_db,
      of "''compact''" "''0.25''" "''0.5''" "''TB''"]
  show ?thesis
  proof (intro conjI)
    show "self_refs db_metadata ''comment'' \<noteq> []" by (rule h)
    show "unqualified db_metadata" by (rule unqualified_db)
    from t [THEN conjunct1]
    show "count_list (edges_of (build_graph db_metadata ''compact'' ''0.25'' ''0.5'' ''TB''))
       (''comment'', ''comment'') = 1"
      by (simp add: self_refs_comment)
    from t [THEN conjunct2, THEN conjunct1]
    show "(''comment'', ''comment'')
       \<in> set (edges_of (build_graph db_metadata ''compact'' ''0.25'' ''0.5'' ''TB''))" .
  qed
qed







section \<open>Theorems about the script\<close>

text \<open>
  Claim C3, amended. After a fully successful run the image of the compact configuration
  (node separation 0.25, rank separation 0.5, top to bottom) is at
  \<^verbatim>\<open>diagram_compact.png\<close>, the image of the symmetric configuration (1.2, 1.0, left to
  right) is at \<^verbatim>\<open>diagram_symmetric.png\<close>, and the canonical \<^verbatim>\<open>diagram.png\<close> holds the
  image of the spaced configuration (1.0, 1.2, top to bottom). The canonical file is the
  spaced output renamed, not a copy: \<^verbatim>\<open>diagram_spaced.png\<close> no longer exists, so three
  image files exist, not four.
\<close>

theorem successful_run_artifacts:
  assumes "fst (main md flt w) = Inr ()"
  shows "files (snd (main md flt w)) ''diagram_compact.png'' =
      Some (Png_image (build_graph md ''compact'' ''0.25'' ''0.5'' ''TB''))
    \<and> files (snd (main md flt w)) ''diagram_symmetric.png'' =
      Some (Png_image (build_graph md ''symmetric'' ''1.2'' ''1.0'' ''LR''))
    \<and> files (snd (main md flt w)) ''diagram.png'' =
      Some (Png_image (build_graph md ''spaced'' ''1.0'' ''1.2'' ''TB''))
    \<and> files (snd (main md flt w)) ''diagram_spaced.png'' = None"
proof -
  from assms have "fst (try_body md flt w) = Inr ()"
    by (simp add: fst_main)
  from try_body_ok_files [OF this] show ?thesis
    by (simp add: files_main tmp_db_def)
qed

theorem successful_run_artifacts_witness:
  "fst (main db_metadata no_faults (start Map.empty)) = Inr ()
   \<and> files (snd (main db_metadata no_faults (start Map.empty))) ''diagram_compact.png'' =
      Some (Png_image (build_graph db_metadata ''compact'' ''0.25'' ''0.5'' ''TB''))
   \<and> files (snd (main db_metadata no_faults (start Map.empty))) ''diagram_symmetric.png'' =
      Some (Png_image (build_graph db_metadata ''symmetric'' ''1.2'' ''1.0'' ''LR''))
   \<and> files (snd (main db_metadata no_faults (start Map.empty))) ''diagram.png'' =
      Some (Png_image (build_graph db_metadata ''spaced'' ''1.0'' ''1.2'' ''TB''))
   \<and> files (snd (main db_metadata no_faults (start Map.empty))) ''diagram_spaced.png'' = None"
  using main_no_faults_ok [of db_metadata "start Map.empty"]
    successful_run_artifacts [OF main_no_faults_ok, of db_metadata "start Map.empty"]
  by blast

text \<open>
  Claim C3, as stated: after a fully successful run all four files exist, the three
  configuration images and the canonical copy. This fails on the run of the repository's
  schema with no fault and an empty directory: the run succeeds and
  \<^verbatim>\<open>diagram_spaced.png\<close> does not exist at its end, because \<^verbatim>\<open>os.replace\<close> moved it.
\<close>

theorem four_files_counterexample:
  "fst (main db_metadata no_faults (start Map.empty)) = Inr ()
   \<and> files (snd (main db_metadata no_faults (start Map.empty))) ''diagram_spaced.png'' = None"
proof -
  have ok: "fst (try_body db_metadata no_faults (start Map.empty)) = Inr ()"
    using main_no_faults_ok [of db_metadata "start Map.empty"] by (simp add: fst_main)
  from try_body_ok_files [OF ok] main_no_faults_ok [of db_metadata "start Map.empty"]
  show ?thesis
    by (simp add: files_main tmp_db_def)
qed

text \<open>
  Claim C2. If the render step of any configuration fails, \<^verbatim>\<open>os.replace\<close> is never called
  in the run, the canonical \<^verbatim>\<open>diagram.png\<close> is what it was before the run (absent if it
  was absent), and the run ends with an error. In particular this holds when the render of
  the symmetric configuration fails.
\<close>

theorem no_canonical_copy_after_failed_render:
  assumes "render_compact_fault flt \<noteq> None \<or> render_spaced_fault flt \<noteq> None
    \<or> render_symmetric_fault flt \<noteq> None"
  shows "Os_replace ''diagram_spaced.png'' ''diagram.png''
      \<notin> set (calls (snd (main md flt (start fs))))
    \<and> files (snd (main md flt (start fs))) ''diagram.png'' = fs ''diagram.png''
    \<and> isl (fst (main md flt (start fs)))"
proof -
  let ?g1 = "build_graph md ''compact'' ''0.25'' ''0.5'' ''TB''"
  let ?g2 = "build_graph md ''spaced'' ''1.0'' ''1.2'' ''TB''"
  let ?g3 = "build_graph md ''symmetric'' ''1.2'' ''1.0'' ''LR''"
  let ?s4 = "render (render_compact_fault flt) ?g1 ''diagram_compact''"
  let ?s5 = "render (render_spaced_fault flt) ?g2 ''diagram_spaced''"
  let ?s6 = "render (render_symmetric_fault flt) ?g3 ''diagram_symmetric''"
  define xs where "xs =
    [remove_if_exists (pre_remove_fails flt) tmp_db,
     create_engine (create_engine_fails flt) (''sqlite:///'' @ tmp_db),
     create_all (create_all_fails flt) md tmp_db, ?s4, ?s5, ?s6]"
  let ?P = "\<lambda>w. files w ''diagram.png'' = fs ''diagram.png''
    \<and> Os_replace ''diagram_spaced.png'' ''diagram.png'' \<notin> set (calls w)"
  have body: "try_body md flt =
    run_steps (xs @ [os_replace (replace_fails flt) ''diagram_spaced.png'' ''diagram.png''])"
    by (simp add: try_body_def xs_def)
  from assms obtain s where s: "s \<in> set xs" "\<And>w. isl (fst (s w))"
  proof (elim disjE)
    assume "render_compact_fault flt \<noteq> None"
    then have "?s4 \<in> set xs" "\<And>w. isl (fst (?s4 w))"
      by (simp_all add: xs_def isl_render)
    then show ?thesis by (rule that)
  next
    assume "render_spaced_fault flt \<noteq> None"
    then have "?s5 \<in> set xs" "\<And>w. isl (fst (?s5 w))"
      by (simp_all add: xs_def isl_render)
    then show ?thesis by (rule that)
  next
    assume "render_symmetric_fault flt \<noteq> None"
    then have "?s6 \<in> set xs" "\<And>w. isl (fst (?s6 w))"
      by (simp_all add: xs_def isl_render)
    then show ?thesis by (rule that)
  qed
  from run_steps_blocked [OF s] body
  have cut: "try_body md flt (start fs) = run_steps xs (start fs)"
    and err: "isl (fst (run_steps xs (start fs)))"
    by simp_all
  have keep: "?P (snd (x w))" if "x \<in> set xs" and "?P w" for x w
    using that unfolding xs_def
    by (auto simp: files_remove_if_exists calls_remove_if_exists files_create_engine
        calls_create_engine files_create_all calls_create_all files_render_other calls_render
        format_build_graph tmp_db_def split: if_splits)
  have "?P (start fs)" by (simp add: start_def)
  with keep have "?P (snd (run_steps xs (start fs)))"
    by (rule run_steps_preserves [where P = ?P])
  with cut have "?P (snd (try_body md flt (start fs)))" by simp
  then have "?P (snd (main md flt (start fs)))"
    by (simp add: files_main calls_main tmp_db_def)
  moreover from err cut have "isl (fst (main md flt (start fs)))"
    by (simp add: fst_main)
  ultimately show ?thesis by simp
qed

theorem no_canonical_copy_after_failed_render_witness:
  "render_symmetric_fault (no_faults\<lparr>render_symmetric_fault := Some Engine_fails\<rparr>) \<noteq> None
   \<and> Os_replace ''diagram_spaced.png'' ''diagram.png''
      \<notin> set (calls (snd (main db_metadata
            (no_faults\<lparr>render_symmetric_fault := Some Engine_fails\<rparr>) (start Map.empty))))
   \<and> files (snd (main db_metadata
          (no_faults\<lparr>render_symmetric_fault := Some Engine_fails\<rparr>) (start Map.empty)))
        ''diagram.png'' = None
   \<and> isl (fst (main db_metadata
          (no_faults\<lparr>render_symmetric_fault := Some Engine_fails\<rparr>) (start Map.empty)))"
proof -
  let ?flt = "no_faults\<lparr>render_symmetric_fault := Some Engine_fails\<rparr>"
  have h: "render_compact_fault ?flt \<noteq> None \<or> render_spaced_fault ?flt \<noteq> None
    \<or> render_symmetric_fault ?flt \<noteq> None"
    by simp
  from no_canonical_copy_after_failed_render [OF h, of db_metadata Map.empty]
  show ?thesis by simp
qed

text \<open>
  Claim C7. On every exit path of the script, whatever the body of the \<^verbatim>\<open>try\<close> did, the
  \<^verbatim>\<open>finally\<close> block runs: it checks for the scratch database and, if the file exists, calls
  \<^verbatim>\<open>os.remove\<close> on it. The result of the script is the result of the body, an error
  included: an error of the cleanup is swallowed and never replaces it. The file is gone at
  the end unless its removal itself failed. Two runs on the repository's schema show both
  sides: when the render of the spaced configuration fails, the script ends with that
  error, the database was there when the body ended and is gone afterwards; when only the
  removal in the cleanup fails, the script still ends normally and the file is left.
\<close>

theorem cleanup_on_every_exit_path:
  "fst (main md flt w) = fst (try_body md flt w)
   \<and> files (snd (main md flt w)) =
       (if cleanup_remove_fails flt then files (snd (try_body md flt w))
        else (files (snd (try_body md flt w)))(tmp_db := None))
   \<and> calls (snd (main md flt w)) =
       calls (snd (try_body md flt w)) @
       (if files (snd (try_body md flt w)) tmp_db = None then [Os_path_exists tmp_db]
        else [Os_path_exists tmp_db, Os_remove tmp_db])
   \<and> fst (main db_metadata (no_faults\<lparr>render_spaced_fault := Some Engine_fails\<rparr>)
          (start Map.empty)) = Inl CalledProcessError
   \<and> files (snd (try_body db_metadata (no_faults\<lparr>render_spaced_fault := Some Engine_fails\<rparr>)
          (start Map.empty))) tmp_db = Some (Sqlite_db (map fst (tables db_metadata)))
   \<and> files (snd (main db_metadata (no_faults\<lparr>render_spaced_fault := Some Engine_fails\<rparr>)
          (start Map.empty))) tmp_db = None
   \<and> fst (main db_metadata (no_faults\<lparr>cleanup_remove_fails := True\<rparr>) (start Map.empty)) =
       Inr ()
   \<and> files (snd (main db_metadata (no_faults\<lparr>cleanup_remove_fails := True\<rparr>)
          (start Map.empty))) tmp_db = Some (Sqlite_db (map fst (tables db_metadata)))"
proof -
  let ?f1 = "no_faults\<lparr>render_spaced_fault := Some Engine_fails\<rparr>"
  let ?f2 = "no_faults\<lparr>cleanup_remove_fails := True\<rparr>"
  have r1: "fst (try_body db_metadata ?f1 (start Map.empty)) = Inl CalledProcessError"
    by (simp add: try_body_def fst_run_steps_Cons no_faults_def fst_remove_if_exists
        fst_create_engine fst_create_all fst_render del: run_steps.simps)
  have d1: "files (snd (try_body db_metadata ?f1 (start Map.empty))) tmp_db =
      Some (Sqlite_db (map fst (tables db_metadata)))"
    by (simp add: try_body_def fst_run_steps_Cons snd_run_steps_Cons
        no_faults_def fst_remove_if_exists fst_create_engine fst_create_all fst_render
        files_create_all files_render_other format_build_graph tmp_db_def
        del: run_steps.simps)
  have c1: "\<not> cleanup_remove_fails ?f1" and c2: "cleanup_remove_fails ?f2"
    by (simp_all add: no_faults_def)
  have ok2: "fst (try_body db_metadata ?f2 (start Map.empty)) = Inr ()"
    unfolding try_body_def run_steps_ok_Cons
    by (simp add: no_faults_def fst_remove_if_exists fst_create_engine fst_create_all
        fst_render_None fst_os_replace files_render_None format_build_graph)
  have d2: "files (snd (try_body db_metadata ?f2 (start Map.empty))) tmp_db =
      Some (Sqlite_db (map fst (tables db_metadata)))"
    by (simp add: try_body_ok_files [OF ok2] tmp_db_def)
  show ?thesis
    unfolding fst_main files_main calls_main
    using r1 d1 c1 c2 ok2 d2 by simp
qed

end
